theory Spec2Isabelle
  imports Main "HOL-Library.AList"
begin

section \<open>Data model\<close>

text \<open>
  Identifiers (socket ids, user ids, room ids, message ids) are JavaScript strings:
  the socket middleware stores \<^verbatim>\<open>user._id.toString()\<close> in \<^verbatim>\<open>socket.userId\<close>, and every
  comparison of ids in the handlers goes through \<^verbatim>\<open>toString()\<close>. Dates are natural
  numbers read from a clock that the caller supplies (\<^verbatim>\<open>new Date()\<close>).
\<close>

subsection \<open>Documents of the Message, ChatRoom and User collections\<close>

record media =
  url :: string
  filename :: string
  mimetype :: string
  media_size :: nat

record message =
  msg_id :: string
  chatRoom :: string
  sender :: string
  content :: string
  messageType :: string
  media :: "media option"
  replyTo :: "string option"
  isDeleted :: bool
  deletedAt :: "nat option"
  isEdited :: bool
  editedAt :: "nat option"
  createdAt :: nat

record participant =
  user :: string
  role :: string
  joinedAt :: nat
  lastRead :: nat

record chat_room =
  room_id :: string
  participants :: "participant list"
  lastMessage :: "string option"

record user_doc =
  u_id :: string
  username :: string
  avatar :: string

text \<open>
  The result of \<^verbatim>\<open>message.populate('sender', 'username avatar')\<close>: the message together
  with the referenced user document, or \<^verbatim>\<open>null\<close> when no such user exists.
\<close>

type_synonym pmessage = "message \<times> user_doc option"

text \<open>
  A \<^verbatim>\<open>findById\<close> either rejects (the promise fails), resolves to \<^verbatim>\<open>null\<close>, or resolves
  to a document.
\<close>

datatype 'a lookup = Rejected string | Absent | Doc 'a

record db =
  chatRooms :: "string \<Rightarrow> chat_room lookup"
  messages :: "string \<Rightarrow> message lookup"
  users :: "string \<Rightarrow> user_doc lookup"

subsection \<open>Sockets, channels and emitted events\<close>

record socket =
  sock_id :: string
  userId :: string
  user_name :: string

text \<open>
  The four ways the source addresses an emission:
  \<^verbatim>\<open>socket.broadcast.emit\<close> (every socket but this one), \<^verbatim>\<open>socket.emit\<close> (this socket),
  \<^verbatim>\<open>io.to(ch).emit\<close> (every socket joined to the channel) and \<^verbatim>\<open>socket.to(ch).emit\<close>
  (the channel without this socket).
\<close>

datatype target =
  BroadcastExcept string
| ToSocket string
| ToChannel string
| ToChannelExcept string string

datatype payload =
  UserOnline string string
| UserOffline string nat
| UsersOnline "string list"
| MessageNew pmessage
| MessageEdited pmessage
| MessageDeleted string string
| TypingStart string string string
| TypingStop string string
| MessagesRead string string
| NotificationMessage string string string "user_doc" nat
| ErrorEvent string

type_synonym emission = "target \<times> payload"

fun event_name :: "payload \<Rightarrow> string" where
  "event_name (UserOnline u n) = ''user:online''"
| "event_name (UserOffline u t) = ''user:offline''"
| "event_name (UsersOnline us) = ''users:online''"
| "event_name (MessageNew m) = ''message:new''"
| "event_name (MessageEdited m) = ''message:edited''"
| "event_name (MessageDeleted m r) = ''message:deleted''"
| "event_name (TypingStart u n r) = ''typing:start''"
| "event_name (TypingStop u r) = ''typing:stop''"
| "event_name (MessagesRead u r) = ''messages:read''"
| "event_name (NotificationMessage r i c s t) = ''notification:message''"
| "event_name (ErrorEvent e) = ''error''"

definition user_channel :: "string \<Rightarrow> string" where
  "user_channel u = ''user:'' @ u"

definition room_channel :: "string \<Rightarrow> string" where
  "room_channel r = ''room:'' @ r"

text \<open>How many emissions of a given event name a handler made.\<close>

definition count_event :: "string \<Rightarrow> emission list \<Rightarrow> nat" where
  "count_event name es = length (filter (\<lambda>e. event_name (snd e) = name) es)"

text \<open>How many emissions of a given event name went to a given channel.\<close>

definition count_on_channel :: "string \<Rightarrow> string \<Rightarrow> emission list \<Rightarrow> nat" where
  "count_on_channel name ch es =
     length (filter (\<lambda>e. event_name (snd e) = name \<and>
                         (case fst e of ToChannel c \<Rightarrow> c = ch
                                      | ToChannelExcept c s \<Rightarrow> c = ch
                                      | _ \<Rightarrow> False)) es)"

section \<open>The session registry\<close>

text \<open>
  A JavaScript \<^verbatim>\<open>Set\<close> is a duplicate-free list in insertion order; a \<^verbatim>\<open>Map\<close> is an
  association list in insertion order, where \<^verbatim>\<open>set\<close> on an existing key keeps the
  key's position (\<^const>\<open>AList.update\<close>) and \<^verbatim>\<open>delete\<close> drops the key
  (\<^const>\<open>AList.delete\<close>).
\<close>

definition set_add :: "'a \<Rightarrow> 'a list \<Rightarrow> 'a list" where
  "set_add x xs = (if x \<in> set xs then xs else xs @ [x])"

definition set_delete :: "'a \<Rightarrow> 'a list \<Rightarrow> 'a list" where
  "set_delete x xs = removeAll x xs"

definition map_has :: "('k \<times> 'v) list \<Rightarrow> 'k \<Rightarrow> bool" where
  "map_has m k = (map_of m k \<noteq> None)"

definition map_keys :: "('k \<times> 'v) list \<Rightarrow> 'k list" where
  "map_keys m = map fst m"

text \<open>\<^verbatim>\<open>[...new Set(xs)]\<close>: the first occurrence of every element, in order.\<close>

definition spread_set :: "'a list \<Rightarrow> 'a list" where
  "spread_set xs = fold set_add xs []"

text \<open>
  The module-level maps \<^verbatim>\<open>onlineUsers\<close> (socket id to user id) and \<^verbatim>\<open>userSockets\<close>
  (user id to the set of that user's socket ids), and the channel table that
  \<^verbatim>\<open>socket.join\<close> and \<^verbatim>\<open>socket.leave\<close> act on (channel name to member socket ids).

  The connection handler registers the listeners of a socket, the one for \<^verbatim>\<open>disconnect\<close>
  among them, only after its \<^verbatim>\<open>await\<close>. The state therefore also records the sockets whose
  connection handler is suspended at the \<^verbatim>\<open>await\<close>, the sockets whose listeners are
  installed, and the ids of the sockets whose transport has closed.
\<close>

record server =
  onlineUsers :: "(string \<times> string) list"
  userSockets :: "(string \<times> string list) list"
  channels :: "(string \<times> string list) list"
  awaiting :: "socket list"
  listening :: "socket list"
  closed :: "string list"

definition init_server :: server where
  "init_server = \<lparr>onlineUsers = [], userSockets = [], channels = [],
                   awaiting = [], listening = [], closed = []\<rparr>"

definition socket_join :: "string \<Rightarrow> string \<Rightarrow> server \<Rightarrow> server" where
  "socket_join sid ch s =
     s\<lparr>channels := AList.update ch
          (set_add sid (case map_of (channels s) ch of None \<Rightarrow> [] | Some ms \<Rightarrow> ms))
          (channels s)\<rparr>"

definition socket_leave :: "string \<Rightarrow> string \<Rightarrow> server \<Rightarrow> server" where
  "socket_leave sid ch s =
     (case map_of (channels s) ch of
        None \<Rightarrow> s
      | Some ms \<Rightarrow> s\<lparr>channels := AList.update ch (set_delete sid ms) (channels s)\<rparr>)"

definition in_channel :: "server \<Rightarrow> string \<Rightarrow> string \<Rightarrow> bool" where
  "in_channel s sid ch =
     (case map_of (channels s) ch of None \<Rightarrow> False | Some ms \<Rightarrow> sid \<in> set ms)"

text \<open>The helpers exported on \<^verbatim>\<open>io\<close>.\<close>

definition getOnlineUsers :: "server \<Rightarrow> string list" where
  "getOnlineUsers s = spread_set (map_keys (userSockets s))"

definition isUserOnline :: "server \<Rightarrow> string \<Rightarrow> bool" where
  "isUserOnline s uid = map_has (userSockets s) uid"

definition getUserSockets :: "server \<Rightarrow> string \<Rightarrow> string list" where
  "getUserSockets s uid =
     (case map_of (userSockets s) uid of None \<Rightarrow> [] | Some ss \<Rightarrow> ss)"

section \<open>Presence: the connection and disconnect handlers\<close>

text \<open>
  An \<^verbatim>\<open>async\<close> handler either runs to its end or stops at a rejected \<^verbatim>\<open>await\<close>; what
  it did before the rejection stays done. The only \<^verbatim>\<open>await\<close> of the two presence
  handlers is \<^verbatim>\<open>User.findByIdAndUpdate\<close>; whether it resolves is the argument
  \<open>upd_ok\<close>. The persisted user record itself is not part of the model.
\<close>

datatype outcome = Resolved | Rejects string

text \<open>
  The connection handler up to its \<^verbatim>\<open>await\<close>: both maps are updated, then the handler
  is suspended.
\<close>

definition on_connection_begin :: "socket \<Rightarrow> server \<Rightarrow> server" where
  "on_connection_begin sock s =
     (let s1 = s\<lparr>onlineUsers := AList.update (sock_id sock) (userId sock) (onlineUsers s)\<rparr>;
          s2 = (if \<not> map_has (userSockets s1) (userId sock)
                then s1\<lparr>userSockets := AList.update (userId sock) [] (userSockets s1)\<rparr>
                else s1);
          s3 = s2\<lparr>userSockets := AList.update (userId sock)
                     (set_add (sock_id sock) (getUserSockets s2 (userId sock)))
                     (userSockets s2)\<rparr>
      in s3\<lparr>awaiting := set_add sock (awaiting s3)\<rparr>)"

text \<open>
  The connection handler from its \<^verbatim>\<open>await\<close> on. When the update rejects, the handler
  ends there: nothing is emitted and no listener is registered. When it resolves, the
  socket joins its user's channel, the two presence events are emitted, and the
  listeners are registered.
\<close>

definition on_connection_settle ::
  "socket \<Rightarrow> bool \<Rightarrow> server \<Rightarrow> server \<times> emission list \<times> outcome" where
  "on_connection_settle sock upd_ok s =
     (let s3 = s\<lparr>awaiting := set_delete sock (awaiting s)\<rparr>
      in if \<not> upd_ok then (s3, [], Rejects ''User.findByIdAndUpdate'')
         else
           (let s4 = socket_join (sock_id sock) (user_channel (userId sock)) s3
            in (s4\<lparr>listening := set_add sock (listening s4)\<rparr>,
                [(BroadcastExcept (sock_id sock), UserOnline (userId sock) (user_name sock)),
                 (ToSocket (sock_id sock), UsersOnline (spread_set (map_keys (userSockets s4))))],
                Resolved)))"

text \<open>The connection handler when nothing else happens while it waits.\<close>

definition on_connection ::
  "socket \<Rightarrow> bool \<Rightarrow> server \<Rightarrow> server \<times> emission list \<times> outcome" where
  "on_connection sock upd_ok s = on_connection_settle sock upd_ok (on_connection_begin sock s)"

definition on_disconnect ::
  "socket \<Rightarrow> nat \<Rightarrow> bool \<Rightarrow> server \<Rightarrow> server \<times> emission list \<times> outcome" where
  "on_disconnect sock now upd_ok s =
     (let s1 = s\<lparr>onlineUsers := AList.delete (sock_id sock) (onlineUsers s)\<rparr>
      in case map_of (userSockets s1) (userId sock) of
           None \<Rightarrow> (s1, [], Resolved)
         | Some userSocketSet \<Rightarrow>
             (let userSocketSet' = set_delete (sock_id sock) userSocketSet;
                  s2 = s1\<lparr>userSockets :=
                            AList.update (userId sock) userSocketSet' (userSockets s1)\<rparr>
              in if length userSocketSet' = 0
                 then
                   (let s3 = s2\<lparr>userSockets := AList.delete (userId sock) (userSockets s2)\<rparr>
                    in if \<not> upd_ok then (s3, [], Rejects ''User.findByIdAndUpdate'')
                       else (s3,
                             [(BroadcastExcept (sock_id sock), UserOffline (userId sock) now)],
                             Resolved))
                 else (s2, [], Resolved)))"

text \<open>
  What happens when the transport of a socket closes: the \<^verbatim>\<open>disconnect\<close> event fires
  once per socket, and the disconnect handler runs only if the connection handler of
  that socket has registered it by then. A socket that closes while its connection
  handler is still waiting, or whose status update rejected, has no such listener.
\<close>

definition on_close ::
  "socket \<Rightarrow> nat \<Rightarrow> bool \<Rightarrow> server \<Rightarrow> server \<times> emission list \<times> outcome" where
  "on_close sock now upd_ok s =
     (if sock_id sock \<in> set (closed s) then (s, [], Resolved)
      else
        (let s1 = s\<lparr>closed := set_add (sock_id sock) (closed s)\<rparr>
         in if sock \<in> set (listening s1) then on_disconnect sock now upd_ok s1
            else (s1, [], Resolved)))"

text \<open>
  A run of the server. \<open>Open\<close> is a connection arriving (the handler runs up to its
  \<^verbatim>\<open>await\<close>), \<open>Settle\<close> is the awaited update of a waiting handler resolving or rejecting,
  \<open>Connect\<close> is the two in one step, and \<open>Disconnect\<close> is the transport of a socket
  closing. Each step works on the state the previous one left; the emissions are
  collected in order.
\<close>

datatype presence_event =
  Connect socket bool
| Open socket
| Settle socket bool
| Disconnect socket nat bool

fun presence_step :: "presence_event \<Rightarrow> server \<Rightarrow> server \<times> emission list \<times> outcome" where
  "presence_step (Connect sock ok) s = on_connection sock ok s"
| "presence_step (Open sock) s = (on_connection_begin sock s, [], Resolved)"
| "presence_step (Settle sock ok) s =
     (if sock \<in> set (awaiting s) then on_connection_settle sock ok s else (s, [], Resolved))"
| "presence_step (Disconnect sock now ok) s = on_close sock now ok s"

fun run :: "presence_event list \<Rightarrow> server \<Rightarrow> server \<times> emission list" where
  "run [] s = (s, [])"
| "run (e # es) s =
     (case presence_step e s of
        (s', out, r) \<Rightarrow> (case run es s' of (s'', out') \<Rightarrow> (s'', out @ out')))"

text \<open>
  The registry invariant between handlers: \<^verbatim>\<open>userSockets\<close> has every key once, and every
  stored set is non-empty and duplicate-free.
\<close>

definition reg_ok :: "server \<Rightarrow> bool" where
  "reg_ok s \<longleftrightarrow>
     distinct (map fst (userSockets s)) \<and>
     (\<forall>u ss. map_of (userSockets s) u = Some ss \<longrightarrow> ss \<noteq> [] \<and> distinct ss)"

text \<open>
  The connections that are live after a sequence of events, read off the events alone:
  a connection is the pair of a socket id and the user id of its handshake; it is live
  from its arrival until its transport closes.
\<close>

fun live_step :: "presence_event \<Rightarrow> (string \<times> string) set \<Rightarrow> (string \<times> string) set" where
  "live_step (Connect sock ok) L = insert (sock_id sock, userId sock) L"
| "live_step (Open sock) L = insert (sock_id sock, userId sock) L"
| "live_step (Settle sock ok) L = L"
| "live_step (Disconnect sock now ok) L = L - {(sock_id sock, userId sock)}"

definition live_connections :: "presence_event list \<Rightarrow> string \<Rightarrow> string set" where
  "live_connections evs u = {sid. (sid, u) \<in> fold live_step evs {}}"

text \<open>The registry holds at least a given set of connections.\<close>

definition covers :: "server \<Rightarrow> (string \<times> string) set \<Rightarrow> bool" where
  "covers s L \<longleftrightarrow> reg_ok s \<and> (\<forall>u. {sid. (sid, u) \<in> L} \<subseteq> set (getUserSockets s u))"

section \<open>Model methods of Message and ChatRoom\<close>

definition deleted_placeholder :: string where
  "deleted_placeholder = ''This message has been deleted''"

definition softDelete :: "message \<Rightarrow> nat \<Rightarrow> message" where
  "softDelete m now =
     m\<lparr>isDeleted := True, deletedAt := Some now,
       content := deleted_placeholder, media := None\<rparr>"

definition editContent :: "message \<Rightarrow> string \<Rightarrow> nat \<Rightarrow> message" where
  "editContent m newContent now =
     m\<lparr>content := newContent, isEdited := True, editedAt := Some now\<rparr>"

text \<open>
  \<^verbatim>\<open>toJSON\<close> works on the copy that \<^verbatim>\<open>toObject\<close> returns; a deleted \<^verbatim>\<open>media\<close> key is an
  absent field.
\<close>

definition toJSON :: "message \<Rightarrow> message" where
  "toJSON m =
     (if isDeleted m then m\<lparr>content := deleted_placeholder, media := None\<rparr> else m)"

definition isParticipant :: "chat_room \<Rightarrow> string \<Rightarrow> bool" where
  "isParticipant room uid = list_ex (\<lambda>p. user p = uid) (participants room)"

fun touch_first :: "string \<Rightarrow> nat \<Rightarrow> participant list \<Rightarrow> participant list" where
  "touch_first uid now [] = []"
| "touch_first uid now (p # ps) =
     (if user p = uid then p\<lparr>lastRead := now\<rparr> # ps else p # touch_first uid now ps)"

definition updateLastRead :: "chat_room \<Rightarrow> string \<Rightarrow> nat \<Rightarrow> chat_room" where
  "updateLastRead room uid now =
     room\<lparr>participants := touch_first uid now (participants room)\<rparr>"

section \<open>The chat handlers\<close>

text \<open>
  Every handler takes the database and returns it, changed by the writes it made
  before it threw or returned. A thrown \<^verbatim>\<open>Error\<close> is \<open>Inl\<close> of its message; a rejected
  lookup throws its own message. \<^verbatim>\<open>Message.create\<close> and \<^verbatim>\<open>save\<close> are taken to resolve:
  the trimming and the schema validation that mongoose applies there are not modelled.
  The id of a created message is supplied by the caller, as is the clock.
\<close>

record send_data =
  chatRoomId :: string
  new_content :: string
  reply_to :: "string option"

record edit_data =
  messageId :: string
  edit_content :: string

definition populate_sender :: "db \<Rightarrow> message \<Rightarrow> string + pmessage" where
  "populate_sender d m =
     (case users d (sender m) of
        Rejected e \<Rightarrow> Inl e
      | Absent \<Rightarrow> Inr (m, None)
      | Doc u \<Rightarrow> Inr (m, Some u))"

definition handleSendMessage ::
  "socket \<Rightarrow> send_data \<Rightarrow> nat \<Rightarrow> string \<Rightarrow> db \<Rightarrow> (string + pmessage) \<times> db" where
  "handleSendMessage sock data now new_id d =
     (case chatRooms d (chatRoomId data) of
        Rejected e \<Rightarrow> (Inl e, d)
      | Absent \<Rightarrow> (Inl ''Chat room not found'', d)
      | Doc room \<Rightarrow>
          if \<not> isParticipant room (userId sock)
          then (Inl ''You are not a member of this chat room'', d)
          else
            (let m = \<lparr>msg_id = new_id, chatRoom = chatRoomId data, sender = userId sock,
                      content = new_content data, messageType = ''text'', media = None,
                      replyTo = (case reply_to data of
                                   None \<Rightarrow> None
                                 | Some r \<Rightarrow> if r = [] then None else Some r),
                      isDeleted = False, deletedAt = None, isEdited = False,
                      editedAt = None, createdAt = now\<rparr>;
                 d1 = d\<lparr>messages := (messages d)(new_id := Doc m)\<rparr>;
                 d2 = d1\<lparr>chatRooms := (chatRooms d1)
                            (room_id room := Doc (room\<lparr>lastMessage := Some new_id\<rparr>))\<rparr>
             in (populate_sender d2 m, d2)))"

definition handleEditMessage ::
  "socket \<Rightarrow> edit_data \<Rightarrow> nat \<Rightarrow> db \<Rightarrow> (string + pmessage) \<times> db" where
  "handleEditMessage sock data now d =
     (case messages d (messageId data) of
        Rejected e \<Rightarrow> (Inl e, d)
      | Absent \<Rightarrow> (Inl ''Message not found'', d)
      | Doc m \<Rightarrow>
          if sender m \<noteq> userId sock
          then (Inl ''You can only edit your own messages'', d)
          else if isDeleted m
          then (Inl ''Cannot edit deleted message'', d)
          else
            (let m' = editContent m (edit_content data) now;
                 d1 = d\<lparr>messages := (messages d)(msg_id m' := Doc m')\<rparr>
             in (populate_sender d1 m', d1)))"

definition handleDeleteMessage ::
  "socket \<Rightarrow> string \<Rightarrow> nat \<Rightarrow> db \<Rightarrow> (string + string \<times> string) \<times> db" where
  "handleDeleteMessage sock mid now d =
     (case messages d mid of
        Rejected e \<Rightarrow> (Inl e, d)
      | Absent \<Rightarrow> (Inl ''Message not found'', d)
      | Doc m \<Rightarrow>
          if sender m \<noteq> userId sock
          then (Inl ''You can only delete your own messages'', d)
          else
            (let m' = softDelete m now;
                 d1 = d\<lparr>messages := (messages d)(msg_id m' := Doc m')\<rparr>
             in (Inr (mid, chatRoom m), d1)))"

definition handleMarkAsRead ::
  "socket \<Rightarrow> string \<Rightarrow> nat \<Rightarrow> db \<Rightarrow> (string + unit) \<times> db" where
  "handleMarkAsRead sock rid now d =
     (case chatRooms d rid of
        Rejected e \<Rightarrow> (Inl e, d)
      | Absent \<Rightarrow> (Inl ''Chat room not found'', d)
      | Doc room \<Rightarrow>
          if \<not> isParticipant room (userId sock)
          then (Inl ''You are not a member of this chat room'', d)
          else
            (Inr (),
             d\<lparr>chatRooms := (chatRooms d)
                  (room_id room := Doc (updateLastRead room (userId sock) now))\<rparr>))"

text \<open>
  The loop of \<^verbatim>\<open>notifyParticipants\<close>. Each round reads \<^verbatim>\<open>message.sender._id\<close>, which throws
  a \<^verbatim>\<open>TypeError\<close> when the populated sender is \<^verbatim>\<open>null\<close>; what was emitted before stays
  emitted.
\<close>

fun notify_loop ::
  "string \<Rightarrow> pmessage \<Rightarrow> participant list \<Rightarrow> emission list \<Rightarrow> (string + unit) \<times> emission list"
  where
  "notify_loop rid msg [] acc = (Inr (), acc)"
| "notify_loop rid msg (p # ps) acc =
     (case snd msg of
        None \<Rightarrow> (Inl ''Cannot read properties of null'', acc)
      | Some sd \<Rightarrow>
          if user p = u_id sd then notify_loop rid msg ps acc
          else notify_loop rid msg ps
                 (acc @ [(ToChannel (user_channel (user p)),
                          NotificationMessage rid (msg_id (fst msg)) (content (fst msg)) sd
                            (createdAt (fst msg)))]))"

text \<open>The body of the \<^verbatim>\<open>try\<close> block.\<close>

definition notify_try ::
  "(string \<Rightarrow> chat_room lookup) \<Rightarrow> string \<Rightarrow> pmessage \<Rightarrow> (string + unit) \<times> emission list"
  where
  "notify_try rooms rid msg =
     (case rooms rid of
        Rejected e \<Rightarrow> (Inl e, [])
      | Absent \<Rightarrow> (Inr (), [])
      | Doc room \<Rightarrow> notify_loop rid msg (participants room) [])"

text \<open>
  \<^verbatim>\<open>notifyParticipants(io, userSockets, chatRoomId, message)\<close>: the result of the call,
  the emissions, and the lines written by \<^verbatim>\<open>console.error\<close>. The \<^verbatim>\<open>userSockets\<close> argument
  is passed by the caller and never read.
\<close>

definition notifyParticipants ::
  "(string \<times> string list) list \<Rightarrow> (string \<Rightarrow> chat_room lookup) \<Rightarrow> string \<Rightarrow> pmessage
     \<Rightarrow> (string + unit) \<times> emission list \<times> string list" where
  "notifyParticipants us rooms rid msg =
     (case notify_try rooms rid msg of
        (Inl e, es) \<Rightarrow> (Inr (), es, [''Error notifying participants: '' @ e])
      | (Inr u, es) \<Rightarrow> (Inr (), es, []))"

section \<open>The socket event handlers\<close>

definition on_room_join :: "socket \<Rightarrow> string \<Rightarrow> server \<Rightarrow> server" where
  "on_room_join sock rid s = socket_join (sock_id sock) (room_channel rid) s"

definition on_room_leave :: "socket \<Rightarrow> string \<Rightarrow> server \<Rightarrow> server" where
  "on_room_leave sock rid s = socket_leave (sock_id sock) (room_channel rid) s"

text \<open>
  \<^verbatim>\<open>message:send\<close>. The call of \<^verbatim>\<open>notifyParticipants\<close> is not awaited: its room lookup
  runs after the handler has emitted \<^verbatim>\<open>message:new\<close>, against the ChatRoom collection as
  it is then (\<open>later\<close>), and its result is dropped. The handler returns the database,
  the emissions and the \<^verbatim>\<open>console.error\<close> lines.
\<close>

definition on_message_send ::
  "socket \<Rightarrow> send_data \<Rightarrow> nat \<Rightarrow> string \<Rightarrow> (string \<Rightarrow> chat_room lookup) \<Rightarrow> db \<Rightarrow> server
     \<Rightarrow> db \<times> emission list \<times> string list" where
  "on_message_send sock data now new_id later d s =
     (case handleSendMessage sock data now new_id d of
        (Inl e, d') \<Rightarrow> (d', [(ToSocket (sock_id sock), ErrorEvent e)], [])
      | (Inr message, d') \<Rightarrow>
          (case notifyParticipants (userSockets s) later (chatRoomId data) message of
             (r, es, logged) \<Rightarrow>
               (d', (ToChannel (room_channel (chatRoomId data)), MessageNew message) # es,
                logged)))"

definition on_message_edit ::
  "socket \<Rightarrow> edit_data \<Rightarrow> nat \<Rightarrow> db \<Rightarrow> db \<times> emission list" where
  "on_message_edit sock data now d =
     (case handleEditMessage sock data now d of
        (Inl e, d') \<Rightarrow> (d', [(ToSocket (sock_id sock), ErrorEvent e)])
      | (Inr message, d') \<Rightarrow>
          (d', [(ToChannel (room_channel (chatRoom (fst message))), MessageEdited message)]))"

definition on_message_delete ::
  "socket \<Rightarrow> string \<Rightarrow> nat \<Rightarrow> db \<Rightarrow> db \<times> emission list" where
  "on_message_delete sock mid now d =
     (case handleDeleteMessage sock mid now d of
        (Inl e, d') \<Rightarrow> (d', [(ToSocket (sock_id sock), ErrorEvent e)])
      | (Inr (m, rid), d') \<Rightarrow> (d', [(ToChannel (room_channel rid), MessageDeleted m rid)]))"

definition on_typing_start :: "socket \<Rightarrow> string \<Rightarrow> emission list" where
  "on_typing_start sock rid =
     [(ToChannelExcept (room_channel rid) (sock_id sock),
       TypingStart (userId sock) (user_name sock) rid)]"

definition on_typing_stop :: "socket \<Rightarrow> string \<Rightarrow> emission list" where
  "on_typing_stop sock rid =
     [(ToChannelExcept (room_channel rid) (sock_id sock), TypingStop (userId sock) rid)]"

definition on_messages_read ::
  "socket \<Rightarrow> string \<Rightarrow> nat \<Rightarrow> db \<Rightarrow> db \<times> emission list" where
  "on_messages_read sock rid now d =
     (case handleMarkAsRead sock rid now d of
        (Inl e, d') \<Rightarrow> (d', [(ToSocket (sock_id sock), ErrorEvent e)])
      | (Inr u, d') \<Rightarrow>
          (d', [(ToChannelExcept (room_channel rid) (sock_id sock),
                 MessagesRead (userId sock) rid)]))"

text \<open>
  What the Room Membership Oracle and the Message collection say about an actor:
  the room resolves and lists the user; the message resolves and the user sent it.
\<close>

definition is_member :: "db \<Rightarrow> string \<Rightarrow> string \<Rightarrow> bool" where
  "is_member d rid uid =
     (case chatRooms d rid of Doc room \<Rightarrow> isParticipant room uid | _ \<Rightarrow> False)"

definition is_author :: "db \<Rightarrow> string \<Rightarrow> string \<Rightarrow> bool" where
  "is_author d mid uid =
     (case messages d mid of Doc m \<Rightarrow> sender m = uid | _ \<Rightarrow> False)"

section \<open>A concrete chat: three users, one room, one message\<close>

definition alice_tab1 :: socket where
  "alice_tab1 = \<lparr>sock_id = ''s1'', userId = ''u1'', user_name = ''alice''\<rparr>"

definition alice_tab2 :: socket where
  "alice_tab2 = \<lparr>sock_id = ''s2'', userId = ''u1'', user_name = ''alice''\<rparr>"

definition bob_tab :: socket where
  "bob_tab = \<lparr>sock_id = ''s3'', userId = ''u2'', user_name = ''bob''\<rparr>"

definition carol_tab :: socket where
  "carol_tab = \<lparr>sock_id = ''s4'', userId = ''u3'', user_name = ''carol''\<rparr>"

definition alice_doc :: user_doc where
  "alice_doc = \<lparr>u_id = ''u1'', username = ''alice'', avatar = []\<rparr>"

definition room1 :: chat_room where
  "room1 = \<lparr>room_id = ''r1'',
            participants =
              [\<lparr>user = ''u1'', role = ''admin'', joinedAt = 0, lastRead = 0\<rparr>,
               \<lparr>user = ''u2'', role = ''member'', joinedAt = 0, lastRead = 0\<rparr>],
            lastMessage = Some ''m1''\<rparr>"

definition msg1 :: message where
  "msg1 = \<lparr>msg_id = ''m1'', chatRoom = ''r1'', sender = ''u1'', content = ''hello'',
           messageType = ''text'', media = None, replyTo = None, isDeleted = False,
           deletedAt = None, isEdited = False, editedAt = None, createdAt = 5\<rparr>"

definition rooms1 :: "string \<Rightarrow> chat_room lookup" where
  "rooms1 = (\<lambda>_. Absent)(''r1'' := Doc room1)"

definition db1 :: db where
  "db1 = \<lparr>chatRooms = rooms1,
          messages = (\<lambda>_. Absent)(''m1'' := Doc msg1),
          users = (\<lambda>_. Absent)(''u1'' := Doc alice_doc)\<rparr>"

text \<open>The same database after alice has deleted her message at time 7.\<close>

definition db1_deleted :: db where
  "db1_deleted = db1\<lparr>messages := (messages db1)(''m1'' := Doc (softDelete msg1 7))\<rparr>"

definition hello :: send_data where
  "hello = \<lparr>chatRoomId = ''r1'', new_content = ''hi'', reply_to = None\<rparr>"



text \<open>The populated message that alice's \<^verbatim>\<open>message:send\<close> of \<open>hello\<close> creates at time 9.\<close>

definition sent_hello :: pmessage where
  "sent_hello =
     (\<lparr>msg_id = ''m2'', chatRoom = ''r1'', sender = ''u1'', content = ''hi'',
       messageType = ''text'', media = None, replyTo = None, isDeleted = False,
       deletedAt = None, isEdited = False, editedAt = None, createdAt = 9\<rparr>,
      Some alice_doc)"

definition rooms_after_hello :: "string \<Rightarrow> chat_room lookup" where
  "rooms_after_hello = chatRooms (snd (handleSendMessage alice_tab1 hello 9 ''m2'' db1))"

text \<open>Alice and bob are connected, and bob's socket has joined the channel of the room.\<close>

definition bob_in_room :: server where
  "bob_in_room =
     on_room_join bob_tab ''r1''
       (fst (on_connection bob_tab True (fst (on_connection alice_tab1 True init_server))))"

definition bob_edit :: edit_data where
  "bob_edit = \<lparr>messageId = ''m1'', edit_content = ''hacked''\<rparr>"

text \<open>Carol is in no room and wrote no message.\<close>

definition carol_hello :: send_data where
  "carol_hello = \<lparr>chatRoomId = ''r1'', new_content = ''let me in'', reply_to = None\<rparr>"

definition carol_edit :: edit_data where
  "carol_edit = \<lparr>messageId = ''m1'', edit_content = ''mine now''\<rparr>"

text \<open>
  A message flagged as deleted whose stored content and attachment are still the
  original ones.
\<close>

definition photo_flagged :: message where
  "photo_flagged =
     msg1\<lparr>isDeleted := True,
          media := Some \<lparr>url = ''/uploads/a.png'', filename = ''a.png'',
                          mimetype = ''image/png'', media_size = 10\<rparr>\<rparr>"

section \<open>Properties of the registry\<close>

lemma set_set_add: "set (set_add x xs) = insert x (set xs)"
  by (auto simp: set_add_def)

lemma distinct_set_add: "distinct xs \<Longrightarrow> distinct (set_add x xs)"
  by (simp add: set_add_def)

lemma set_add_not_Nil: "set_add x xs \<noteq> []"
  by (auto simp: set_add_def)

lemma set_set_delete: "set (set_delete x xs) = set xs - {x}"
  by (auto simp: set_delete_def)

lemma distinct_set_delete: "distinct xs \<Longrightarrow> distinct (set_delete x xs)"
  by (simp add: set_delete_def distinct_removeAll)

lemma on_connection_begin_userSockets:
  "map_of (userSockets (on_connection_begin sock s)) =
     (map_of (userSockets s))
       (userId sock \<mapsto> set_add (sock_id sock) (getUserSockets s (userId sock)))"
  by (auto simp: on_connection_begin_def Let_def map_has_def getUserSockets_def
      AList.update_conv' split: option.splits)

lemma on_connection_begin_keys:
  "distinct (map fst (userSockets s)) \<Longrightarrow>
   distinct (map fst (userSockets (on_connection_begin sock s)))"
  by (auto simp: on_connection_begin_def Let_def AList.distinct_update)

lemma on_connection_settle_userSockets:
  "userSockets (fst (on_connection_settle sock ok s)) = userSockets s"
  by (simp add: on_connection_settle_def Let_def socket_join_def)

lemma on_disconnect_userSockets:
  "map_of (userSockets (fst (on_disconnect sock now ok s))) =
     (case map_of (userSockets s) (userId sock) of
        None \<Rightarrow> map_of (userSockets s)
      | Some ss \<Rightarrow>
          if set_delete (sock_id sock) ss = []
          then (map_of (userSockets s))(userId sock := None)
          else (map_of (userSockets s))(userId sock \<mapsto> set_delete (sock_id sock) ss))"
  by (auto simp: on_disconnect_def Let_def AList.update_conv' AList.delete_conv'
      split: option.splits)

lemma on_disconnect_keys:
  "distinct (map fst (userSockets s)) \<Longrightarrow>
   distinct (map fst (userSockets (fst (on_disconnect sock now ok s))))"
  by (auto simp: on_disconnect_def Let_def AList.distinct_update AList.distinct_delete
      split: option.splits)

lemma getUserSockets_begin:
  "getUserSockets (on_connection_begin sock s) u =
     (if u = userId sock then set_add (sock_id sock) (getUserSockets s (userId sock))
      else getUserSockets s u)"
  by (simp add: getUserSockets_def on_connection_begin_userSockets)

lemma getUserSockets_settle:
  "getUserSockets (fst (on_connection_settle sock ok s)) u = getUserSockets s u"
  by (simp add: getUserSockets_def on_connection_settle_userSockets)

lemma getUserSockets_disconnect:
  "getUserSockets (fst (on_disconnect sock now ok s)) u =
     (if u = userId sock then set_delete (sock_id sock) (getUserSockets s (userId sock))
      else getUserSockets s u)"
  by (simp add: getUserSockets_def on_disconnect_userSockets set_delete_def
      split: option.splits)

lemma reg_ok_same_userSockets: "userSockets s' = userSockets s \<Longrightarrow> reg_ok s' = reg_ok s"
  by (simp add: reg_ok_def)

lemma reg_ok_sockets:
  assumes "reg_ok s"
  shows "distinct (getUserSockets s u)"
    and "isUserOnline s u \<longleftrightarrow> getUserSockets s u \<noteq> []"
proof -
  show "distinct (getUserSockets s u)"
  proof (cases "map_of (userSockets s) u")
    case None
    then show ?thesis by (simp add: getUserSockets_def)
  next
    case (Some ss)
    with assms have "distinct ss" unfolding reg_ok_def by blast
    with Some show ?thesis by (simp add: getUserSockets_def)
  qed
  show "isUserOnline s u \<longleftrightarrow> getUserSockets s u \<noteq> []"
  proof (cases "map_of (userSockets s) u")
    case None
    then show ?thesis by (simp add: getUserSockets_def isUserOnline_def map_has_def)
  next
    case (Some ss)
    with assms have "ss \<noteq> []" unfolding reg_ok_def by blast
    with Some show ?thesis by (simp add: getUserSockets_def isUserOnline_def map_has_def)
  qed
qed

lemma reg_ok_begin:
  assumes "reg_ok s"
  shows "reg_ok (on_connection_begin sock s)"
proof -
  have keys: "distinct (map fst (userSockets (on_connection_begin sock s)))"
    using assms by (simp add: reg_ok_def on_connection_begin_keys)
  have "ss \<noteq> [] \<and> distinct ss"
    if h: "map_of (userSockets (on_connection_begin sock s)) u = Some ss" for u ss
  proof (cases "u = userId sock")
    case True
    with h have "ss = set_add (sock_id sock) (getUserSockets s (userId sock))"
      by (simp add: on_connection_begin_userSockets)
    then show ?thesis
      using reg_ok_sockets(1) [OF assms] by (simp add: set_add_not_Nil distinct_set_add)
  next
    case False
    with h have "map_of (userSockets s) u = Some ss"
      by (simp add: on_connection_begin_userSockets)
    with assms show ?thesis unfolding reg_ok_def by blast
  qed
  with keys show ?thesis unfolding reg_ok_def by blast
qed

lemma reg_ok_settle: "reg_ok s \<Longrightarrow> reg_ok (fst (on_connection_settle sock ok s))"
  by (simp add: reg_ok_same_userSockets [OF on_connection_settle_userSockets])

lemma reg_ok_disconnect:
  assumes "reg_ok s"
  shows "reg_ok (fst (on_disconnect sock now ok s))"
proof -
  have keys: "distinct (map fst (userSockets (fst (on_disconnect sock now ok s))))"
    using assms by (simp add: reg_ok_def on_disconnect_keys)
  have "ss \<noteq> [] \<and> distinct ss"
    if h: "map_of (userSockets (fst (on_disconnect sock now ok s))) u = Some ss" for u ss
  proof (cases "u = userId sock")
    case True
    with h obtain ss0 where ss0: "map_of (userSockets s) (userId sock) = Some ss0"
      and ss: "ss = set_delete (sock_id sock) ss0" "set_delete (sock_id sock) ss0 \<noteq> []"
      by (auto simp: on_disconnect_userSockets split: option.splits if_splits)
    from ss0 assms have "distinct ss0" unfolding reg_ok_def by blast
    with ss show ?thesis by (simp add: distinct_set_delete)
  next
    case False
    with h have "map_of (userSockets s) u = Some ss"
      by (auto simp: on_disconnect_userSockets split: option.splits if_splits)
    with assms show ?thesis unfolding reg_ok_def by blast
  qed
  with keys show ?thesis unfolding reg_ok_def by blast
qed

text \<open>
  Every connection that is live is stored in the registry: arrivals are stored at
  once, and nothing but the disconnect handler of a socket removes it.
\<close>

lemma covers_begin:
  assumes "covers s L"
  shows "covers (on_connection_begin sock s) (insert (sock_id sock, userId sock) L)"
proof -
  from assms have ok: "reg_ok s"
    and t: "\<And>u. {sid. (sid, u) \<in> L} \<subseteq> set (getUserSockets s u)"
    by (simp_all add: covers_def)
  have "{sid. (sid, u) \<in> insert (sock_id sock, userId sock) L}
        \<subseteq> set (getUserSockets (on_connection_begin sock s) u)" for u
    using t [of u] by (auto simp: getUserSockets_begin set_set_add)
  with reg_ok_begin [OF ok] show ?thesis by (simp add: covers_def)
qed

lemma covers_settle:
  "covers s L \<Longrightarrow> covers (fst (on_connection_settle sock ok s)) L"
  by (simp add: covers_def reg_ok_settle getUserSockets_settle)

lemma covers_disconnect:
  assumes "covers s L"
  shows "covers (fst (on_disconnect sock now ok s)) (L - {(sock_id sock, userId sock)})"
proof -
  from assms have ok: "reg_ok s"
    and t: "\<And>u. {sid. (sid, u) \<in> L} \<subseteq> set (getUserSockets s u)"
    by (simp_all add: covers_def)
  have "{sid. (sid, u) \<in> L - {(sock_id sock, userId sock)}}
        \<subseteq> set (getUserSockets (fst (on_disconnect sock now ok s)) u)" for u
    using t [of u] by (auto simp: getUserSockets_disconnect set_set_delete)
  with reg_ok_disconnect [OF ok] show ?thesis by (simp add: covers_def)
qed

lemma covers_smaller: "covers s L \<Longrightarrow> L' \<subseteq> L \<Longrightarrow> covers s L'"
  unfolding covers_def by blast

lemma covers_closed: "covers (s\<lparr>closed := c\<rparr>) L = covers s L"
  by (simp add: covers_def reg_ok_def getUserSockets_def)

lemma covers_close:
  assumes "covers s L"
  shows "covers (fst (on_close sock now ok s)) (L - {(sock_id sock, userId sock)})"
proof -
  have small: "covers s (L - {(sock_id sock, userId sock)})"
    by (rule covers_smaller [OF assms]) blast
  show ?thesis
  proof (cases "sock_id sock \<in> set (closed s)")
    case True
    with small show ?thesis by (simp add: on_close_def)
  next
    case False
    let ?s1 = "s\<lparr>closed := set_add (sock_id sock) (closed s)\<rparr>"
    have c1: "covers ?s1 L" using assms by (simp add: covers_closed)
    show ?thesis
    proof (cases "sock \<in> set (listening s)")
      case True
      with False covers_disconnect [OF c1, of sock now ok] show ?thesis
        by (simp add: on_close_def Let_def)
    next
      case no: False
      from small have "covers ?s1 (L - {(sock_id sock, userId sock)})"
        by (simp add: covers_closed)
      with False no show ?thesis by (simp add: on_close_def Let_def)
    qed
  qed
qed

lemma covers_step:
  "covers s L \<Longrightarrow> covers (fst (presence_step e s)) (live_step e L)"
proof (cases e)
  case (Connect sock ok)
  assume "covers s L"
  from covers_settle [OF covers_begin [OF this]] Connect show ?thesis
    by (simp add: on_connection_def)
next
  case (Open sock)
  assume "covers s L"
  from covers_begin [OF this] Open show ?thesis by simp
next
  case (Settle sock ok)
  assume "covers s L"
  with covers_settle [OF this] Settle show ?thesis by simp
next
  case (Disconnect sock now ok)
  assume "covers s L"
  from covers_close [OF this] Disconnect show ?thesis by simp
qed

lemma fst_run_Cons: "fst (run (e # es) s) = fst (run es (fst (presence_step e s)))"
  by (simp split: prod.splits)

lemma covers_run:
  "covers s L \<Longrightarrow> covers (fst (run evs s)) (fold live_step evs L)"
proof (induction evs arbitrary: s L)
  case Nil
  then show ?case by simp
next
  case (Cons e evs)
  from Cons.prems have "covers (fst (presence_step e s)) (live_step e L)"
    by (rule covers_step)
  from Cons.IH [OF this] show ?case
    by (simp only: fst_run_Cons fold_simps)
qed

lemma covers_init: "covers init_server {}"
  by (simp add: covers_def reg_ok_def init_server_def getUserSockets_def)

lemma fold_set_add:
  "distinct xs \<Longrightarrow> fold set_add xs acc = acc @ filter (\<lambda>x. x \<notin> set acc) xs"
proof (induction xs arbitrary: acc)
  case Nil
  then show ?case by simp
next
  case (Cons x xs)
  then show ?case
    by (auto simp: set_add_def intro: filter_cong)
qed

lemma spread_set_distinct: "distinct xs \<Longrightarrow> spread_set xs = xs"
  by (simp add: spread_set_def fold_set_add)

lemma count_list_distinct:
  "distinct xs \<Longrightarrow> count_list xs x = (if x \<in> set xs then 1 else 0)"
  by (induction xs) auto

lemma getOnlineUsers_count:
  assumes "reg_ok s"
  shows "count_list (getOnlineUsers s) u = (if isUserOnline s u then 1 else 0)"
proof -
  from assms have d: "distinct (map fst (userSockets s))" by (simp add: reg_ok_def)
  have "isUserOnline s u \<longleftrightarrow> u \<in> set (map fst (userSockets s))"
    by (simp add: isUserOnline_def map_has_def map_of_eq_None_iff)
  then show ?thesis
    by (simp add: getOnlineUsers_def map_keys_def spread_set_distinct [OF d]
        count_list_distinct [OF d])
qed

lemma reachable_reg_ok: "reg_ok (fst (run evs init_server))"
  using covers_run [OF covers_init, of evs] by (simp add: covers_def)

text \<open>
  What does hold after every sequence of events: the registry is consistent with
  itself (a user is reported online exactly when a non-empty set is stored, and is
  listed once in the snapshot or not at all), and a user with a live connection is
  reported online.
\<close>

lemma registry_consistent:
  "(isUserOnline (fst (run evs init_server)) u \<longleftrightarrow>
      getUserSockets (fst (run evs init_server)) u \<noteq> [])
   \<and> count_list (getOnlineUsers (fst (run evs init_server))) u =
       (if getUserSockets (fst (run evs init_server)) u \<noteq> [] then 1 else 0)
   \<and> live_connections evs u \<subseteq> set (getUserSockets (fst (run evs init_server)) u)"
proof -
  define s where "s = fst (run evs init_server)"
  have c: "covers s (fold live_step evs {})"
    unfolding s_def by (rule covers_run [OF covers_init])
  then have ok: "reg_ok s" by (simp add: covers_def)
  from c have "live_connections evs u \<subseteq> set (getUserSockets s u)"
    by (simp add: covers_def live_connections_def)
  with reg_ok_sockets(2) [OF ok, of u] getOnlineUsers_count [OF ok, of u]
  show ?thesis unfolding s_def [symmetric] by simp
qed

lemma live_connection_is_online:
  "live_connections evs u \<noteq> {} \<Longrightarrow> isUserOnline (fst (run evs init_server)) u"
  using registry_consistent [of evs u] by auto

section \<open>Presence broadcasts\<close>

text \<open>
  Whenever the status update resolves, the connection handler broadcasts
  \<^verbatim>\<open>user:online\<close>, whatever the registry held before: the test on \<^verbatim>\<open>userSockets.has\<close>
  only decides whether a fresh set is created.
\<close>

lemma connection_broadcast_unconditional:
  "fst (snd (on_connection sock True s)) =
     [(BroadcastExcept (sock_id sock), UserOnline (userId sock) (user_name sock)),
      (ToSocket (sock_id sock),
       UsersOnline (getOnlineUsers (fst (on_connection sock True s))))]"
  by (simp add: on_connection_def on_connection_settle_def Let_def getOnlineUsers_def
      socket_join_def)

text \<open>
  Claim C1. Presence broadcasts are edge-triggered: a user who opens N connections and
  closes them all causes exactly one \<^verbatim>\<open>user:online\<close> and exactly one \<^verbatim>\<open>user:offline\<close>
  broadcast. The code does this for \<^verbatim>\<open>user:offline\<close> only. Alice opens two tabs and
  closes both: \<^verbatim>\<open>user:online\<close> is broadcast twice, \<^verbatim>\<open>user:offline\<close> once.
\<close>

theorem two_tabs_online_broadcast_twice:
  "count_event ''user:online''
     (snd (run [Connect alice_tab1 True, Connect alice_tab2 True,
                Disconnect alice_tab1 10 True, Disconnect alice_tab2 11 True] init_server)) = 2
   \<and> count_event ''user:offline''
     (snd (run [Connect alice_tab1 True, Connect alice_tab2 True,
                Disconnect alice_tab1 10 True, Disconnect alice_tab2 11 True] init_server)) = 1"
  by (simp add: alice_tab1_def alice_tab2_def init_server_def on_connection_def
      on_connection_begin_def on_connection_settle_def on_close_def
      on_disconnect_def Let_def map_has_def getUserSockets_def set_add_def set_delete_def
      socket_join_def count_event_def user_channel_def spread_set_def map_keys_def)

section \<open>Unregistering a connection that is not registered\<close>

lemma disconnect_absent_noop:
  assumes ok: "reg_ok s"
    and a1: "map_of (onlineUsers s) (sock_id sock) = None"
    and a2: "sock_id sock \<notin> set (getUserSockets s (userId sock))"
  shows "on_disconnect sock now upd s = (s, [], Resolved)"
proof -
  from a1 have d: "AList.delete (sock_id sock) (onlineUsers s) = onlineUsers s"
    by (simp add: map_of_eq_None_iff)
  show ?thesis
  proof (cases "map_of (userSockets s) (userId sock)")
    case None
    then show ?thesis by (simp add: on_disconnect_def Let_def d)
  next
    case (Some ss)
    with ok have ne: "ss \<noteq> []" unfolding reg_ok_def by blast
    from Some a2 have "set_delete (sock_id sock) ss = ss"
      by (simp add: getUserSockets_def set_delete_def)
    with Some ne show ?thesis
      by (simp add: on_disconnect_def Let_def d AList.update_triv)
  qed
qed

lemma disconnect_twice_noop:
  "on_disconnect sock t2 upd2 (fst (on_disconnect sock t1 upd1 s)) =
     (fst (on_disconnect sock t1 upd1 s), [], Resolved)"
proof (cases "map_of (userSockets s) (userId sock)")
  case None
  then show ?thesis
    by (simp add: on_disconnect_def Let_def AList.delete_idem)
next
  case (Some ss)
  show ?thesis
  proof (cases "set_delete (sock_id sock) ss = []")
    case True
    with Some show ?thesis
      by (simp add: on_disconnect_def Let_def AList.delete_idem AList.delete_conv')
  next
    case False
    have "set_delete (sock_id sock) (set_delete (sock_id sock) ss) = set_delete (sock_id sock) ss"
      by (simp add: set_delete_def)
    with Some False show ?thesis
      by (simp add: on_disconnect_def Let_def AList.delete_idem AList.update_conv')
  qed
qed

text \<open>
  Claim C8. Unregistering is idempotent. In every state the server can reach by
  connections and disconnections, the disconnect handler run for a socket id that is
  in neither map returns normally, leaves the state as it was and emits nothing; and
  running the handler a second time for the same socket, right after the first, does
  the same (no second \<^verbatim>\<open>user:offline\<close>).
\<close>

theorem unregister_idempotent:
  "(let s = fst (run evs init_server) in
      (map_of (onlineUsers s) (sock_id sock) = None \<and>
       sock_id sock \<notin> set (getUserSockets s (userId sock))
       \<longrightarrow> on_disconnect sock now upd s = (s, [], Resolved))
      \<and> on_disconnect sock t2 upd2 (fst (on_disconnect sock now upd s)) =
          (fst (on_disconnect sock now upd s), [], Resolved))"
  unfolding Let_def
  using disconnect_absent_noop [OF reachable_reg_ok] disconnect_twice_noop
  by blast

theorem unregister_idempotent_witness:
  "map_of (onlineUsers (fst (run [Connect alice_tab1 True, Disconnect alice_tab1 10 True]
                               init_server))) (sock_id alice_tab1) = None \<and>
   sock_id alice_tab1 \<notin>
     set (getUserSockets (fst (run [Connect alice_tab1 True, Disconnect alice_tab1 10 True]
                                 init_server)) (userId alice_tab1)) \<and>
   on_disconnect alice_tab1 12 True
     (fst (run [Connect alice_tab1 True, Disconnect alice_tab1 10 True] init_server)) =
     (fst (run [Connect alice_tab1 True, Disconnect alice_tab1 10 True] init_server),
      [], Resolved)"
proof -
  define s where "s = fst (run [Connect alice_tab1 True, Disconnect alice_tab1 10 True]
                             init_server)"
  have st: "onlineUsers s = [] \<and> userSockets s = []"
    unfolding s_def
    by (simp add: alice_tab1_def init_server_def on_connection_def on_connection_begin_def
        on_connection_settle_def on_close_def on_disconnect_def Let_def map_has_def
        getUserSockets_def set_add_def set_delete_def socket_join_def user_channel_def)
  have h1: "map_of (onlineUsers s) (sock_id alice_tab1) = None" by (simp add: st)
  have h2: "sock_id alice_tab1 \<notin> set (getUserSockets s (userId alice_tab1))"
    by (simp add: st getUserSockets_def)
  from unregister_idempotent
         [of "[Connect alice_tab1 True, Disconnect alice_tab1 10 True]" alice_tab1 12 True]
       h1 h2
  show ?thesis unfolding Let_def s_def [symmetric] by blast
qed

section \<open>Online without a live connection\<close>

text \<open>
  Claim C9. After any sequence of connections and disconnections the registry reports
  a user online if and only if the user has a live connection, and the user's entry
  goes with the last connection. The code does not do this for a socket that closes
  before its disconnect listener is registered. Alice's only socket closes while its
  connection handler still waits for the status update; the update then resolves.
  Alice has no live connection, no \<^verbatim>\<open>user:offline\<close> was broadcast, and the registry
  reports her online, with her closed socket stored. The same happens when the status
  update of her connection rejects and her socket closes afterwards.
\<close>

theorem early_close_leaves_user_online:
  "live_connections [Open alice_tab1, Disconnect alice_tab1 10 True, Settle alice_tab1 True]
     ''u1'' = {}
   \<and> isUserOnline
       (fst (run [Open alice_tab1, Disconnect alice_tab1 10 True, Settle alice_tab1 True]
               init_server)) ''u1''
   \<and> getUserSockets
       (fst (run [Open alice_tab1, Disconnect alice_tab1 10 True, Settle alice_tab1 True]
               init_server)) ''u1'' = [''s1'']
   \<and> getOnlineUsers
       (fst (run [Open alice_tab1, Disconnect alice_tab1 10 True, Settle alice_tab1 True]
               init_server)) = [''u1'']
   \<and> count_event ''user:offline''
       (snd (run [Open alice_tab1, Disconnect alice_tab1 10 True, Settle alice_tab1 True]
               init_server)) = 0
   \<and> live_connections [Connect alice_tab1 False, Disconnect alice_tab1 10 True] ''u1'' = {}
   \<and> isUserOnline
       (fst (run [Connect alice_tab1 False, Disconnect alice_tab1 10 True] init_server))
       ''u1''"
proof -
  have l1: "live_connections [Open alice_tab1, Disconnect alice_tab1 10 True,
                              Settle alice_tab1 True] ''u1'' = {}"
    by (simp add: live_connections_def)
  have l2: "live_connections [Connect alice_tab1 False, Disconnect alice_tab1 10 True]
              ''u1'' = {}"
    by (simp add: live_connections_def)
  have r1: "run [Open alice_tab1, Disconnect alice_tab1 10 True, Settle alice_tab1 True]
              init_server =
            (\<lparr>onlineUsers = [(''s1'', ''u1'')], userSockets = [(''u1'', [''s1''])],
              channels = [(''user:u1'', [''s1''])], awaiting = [],
              listening = [alice_tab1], closed = [''s1'']\<rparr>,
             [(BroadcastExcept ''s1'', UserOnline ''u1'' ''alice''),
              (ToSocket ''s1'', UsersOnline [''u1''])])"
    by (simp add: alice_tab1_def init_server_def on_connection_begin_def
        on_connection_settle_def on_close_def Let_def map_has_def getUserSockets_def
        set_add_def set_delete_def socket_join_def user_channel_def spread_set_def
        map_keys_def)
  have r2: "fst (run [Connect alice_tab1 False, Disconnect alice_tab1 10 True] init_server) =
            \<lparr>onlineUsers = [(''s1'', ''u1'')], userSockets = [(''u1'', [''s1''])],
              channels = [], awaiting = [], listening = [], closed = [''s1'']\<rparr>"
    by (simp add: alice_tab1_def init_server_def on_connection_def on_connection_begin_def
        on_connection_settle_def on_close_def Let_def map_has_def getUserSockets_def
        set_add_def set_delete_def)
  show ?thesis
    unfolding r1 r2 l1 l2
    by (simp add: isUserOnline_def map_has_def getUserSockets_def getOnlineUsers_def
        spread_set_def map_keys_def set_add_def count_event_def)
qed

section \<open>Notifications to the participants of a room\<close>

lemma user_channel_inj: "user_channel a = user_channel b \<longleftrightarrow> a = b"
  by (simp add: user_channel_def)

lemma notify_loop_found:
  "notify_loop rid (m, Some sd) ps acc =
     (Inr (),
      acc @ map (\<lambda>p. (ToChannel (user_channel (user p)),
                       NotificationMessage rid (msg_id m) (content m) sd (createdAt m)))
                (filter (\<lambda>p. user p \<noteq> u_id sd) ps))"
  by (induction ps arbitrary: acc) simp_all


lemma count_notifications:
  "count_on_channel ''notification:message'' (user_channel q)
     (map (\<lambda>p. (ToChannel (user_channel (user p)), NotificationMessage rid i c sd t))
          (filter (\<lambda>p. user p \<noteq> u) ps)) =
   (if q = u then 0 else count_list (map user ps) q)"
  by (induction ps) (auto simp: count_on_channel_def user_channel_inj)

lemma notify_found_count:
  assumes "rooms rid = Doc room"
  shows "count_on_channel ''notification:message'' (user_channel q)
           (fst (snd (notifyParticipants us rooms rid (m, Some sd)))) =
         (if q = u_id sd then 0 else count_list (map user (participants room)) q)"
  using assms
  by (simp add: notifyParticipants_def notify_try_def notify_loop_found count_notifications)





section \<open>Notification failures stay inside the notifier\<close>

lemma count_error_notify_loop:
  "count_event ''error'' (snd (notify_loop rid msg ps acc)) = count_event ''error'' acc"
  by (induction ps arbitrary: acc) (simp_all add: count_event_def split: option.splits)

lemma notify_no_error_event:
  "count_event ''error'' (fst (snd (notifyParticipants us rooms rid msg))) = 0"
proof (cases "rooms rid")
  case (Doc room)
  obtain r es where l: "notify_loop rid msg (participants room) [] = (r, es)"
    by (cases "notify_loop rid msg (participants room) []")
  have "count_event ''error'' es = 0"
    using count_error_notify_loop [of rid msg "participants room" "[]"] l
    by (simp add: count_event_def)
  with Doc l show ?thesis
    by (cases r) (simp_all add: notifyParticipants_def notify_try_def)
qed (simp_all add: notifyParticipants_def notify_try_def count_event_def)

lemma notify_result: "fst (notifyParticipants us rooms rid msg) = Inr ()"
  by (simp add: notifyParticipants_def split: prod.splits sum.splits)

lemma send_hello:
  "fst (handleSendMessage alice_tab1 hello 9 ''m2'' db1) = Inr sent_hello"
  by (simp add: handleSendMessage_def hello_def db1_def rooms1_def room1_def
      isParticipant_def alice_tab1_def populate_sender_def Let_def sent_hello_def)

text \<open>
  Claim C4. \<^verbatim>\<open>notifyParticipants\<close> never raises to its caller: its result is always a
  normal return. When the room lookup finds no room it emits nothing and logs nothing.
  Whatever fails (a rejected lookup, a \<^verbatim>\<open>TypeError\<close> inside the loop), no \<^verbatim>\<open>error\<close> event
  is among its emissions, and a \<^verbatim>\<open>message:send\<close> whose message was stored emits no
  \<^verbatim>\<open>error\<close> event to the sender, whatever the notifier's lookup does later.
\<close>

theorem notify_never_raises:
  "fst (notifyParticipants us rooms rid msg) = Inr ()
   \<and> (rooms rid = Absent \<longrightarrow> notifyParticipants us rooms rid msg = (Inr (), [], []))
   \<and> count_event ''error'' (fst (snd (notifyParticipants us rooms rid msg))) = 0
   \<and> (fst (handleSendMessage sock data now nid d) = Inr message \<longrightarrow>
        count_event ''error''
          (fst (snd (on_message_send sock data now nid later d s))) = 0)"
proof -
  have a: "rooms rid = Absent \<longrightarrow> notifyParticipants us rooms rid msg = (Inr (), [], [])"
    by (simp add: notifyParticipants_def notify_try_def)
  have b: "count_event ''error''
          (fst (snd (on_message_send sock data now nid later d s))) = 0"
    if h: "fst (handleSendMessage sock data now nid d) = Inr message"
  proof -
    obtain d' where hs: "handleSendMessage sock data now nid d = (Inr message, d')"
      using h by (cases "handleSendMessage sock data now nid d") simp
    obtain r es lg where n:
      "notifyParticipants (userSockets s) later (chatRoomId data) message = (r, es, lg)"
      by (cases "notifyParticipants (userSockets s) later (chatRoomId data) message") auto
    have "count_event ''error'' es = 0"
      using notify_no_error_event [of "userSockets s" later "chatRoomId data" message] n
      by simp
    with hs n show ?thesis
      by (simp add: on_message_send_def count_event_def)
  qed
  from a b notify_result notify_no_error_event show ?thesis by blast
qed

theorem notify_never_raises_witness:
  "(\<lambda>_. Absent) ''r1'' = (Absent :: chat_room lookup) \<and>
   fst (handleSendMessage alice_tab1 hello 9 ''m2'' db1) = Inr sent_hello \<and>
   notifyParticipants [] (\<lambda>_. Absent) ''r1'' sent_hello = (Inr (), [], []) \<and>
   count_event ''error''
     (fst (snd (on_message_send alice_tab1 hello 9 ''m2'' (\<lambda>_. Rejected ''down'') db1
                  init_server))) = 0"
proof -
  have h1: "(\<lambda>_. Absent) ''r1'' = (Absent :: chat_room lookup)" by simp
  note h2 = send_hello
  from notify_never_raises [where rooms = "\<lambda>_. Absent" and rid = "''r1''" and us = "[]"
      and msg = sent_hello and sock = alice_tab1 and data = hello and now = 9
      and nid = "''m2''" and d = db1 and message = sent_hello
      and later = "\<lambda>_. Rejected ''down''" and s = init_server] h1 h2
  show ?thesis by simp
qed

section \<open>Who is notified of a new message\<close>

lemma rooms_after_hello_r1:
  "rooms_after_hello ''r1'' = Doc (room1\<lparr>lastMessage := Some ''m2''\<rparr>)"
  by (simp add: rooms_after_hello_def handleSendMessage_def hello_def db1_def rooms1_def
      room1_def isParticipant_def alice_tab1_def Let_def)

lemma bob_joined: "in_channel bob_in_room (sock_id bob_tab) (room_channel ''r1'')"
  by (simp add: bob_in_room_def on_room_join_def socket_join_def in_channel_def
      AList.update_conv' set_add_def)

lemma notify_loop_names:
  "list_all (\<lambda>e. event_name (snd e) = ''notification:message'') acc \<Longrightarrow>
   list_all (\<lambda>e. event_name (snd e) = ''notification:message'')
     (snd (notify_loop rid msg ps acc))"
  by (induction ps arbitrary: acc) (simp_all split: option.splits)

lemma notify_names:
  "list_all (\<lambda>e. event_name (snd e) = ''notification:message'')
     (fst (snd (notifyParticipants us rooms rid msg)))"
proof (cases "rooms rid")
  case (Doc room)
  obtain r es where l: "notify_loop rid msg (participants room) [] = (r, es)"
    by (cases "notify_loop rid msg (participants room) []")
  have "list_all (\<lambda>e. event_name (snd e) = ''notification:message'') es"
    using notify_loop_names [of "[]" rid msg "participants room"] l by simp
  with Doc l show ?thesis
    by (cases r) (simp_all add: notifyParticipants_def notify_try_def)
qed (simp_all add: notifyParticipants_def notify_try_def)

lemma count_other_name:
  "list_all (\<lambda>e. event_name (snd e) = n) es \<Longrightarrow> n \<noteq> n' \<Longrightarrow>
   count_on_channel n' ch es = 0"
  by (induction es) (simp_all add: count_on_channel_def)

lemma count_new_notify:
  "count_on_channel ''message:new'' ch (fst (snd (notifyParticipants us rooms rid msg))) = 0"
  by (rule count_other_name [OF notify_names]) simp

text \<open>
  Claim C3 says that a participant whose connection is joined to the room's channel
  gets no \<^verbatim>\<open>notification:message\<close> on the private channel. The code never looks at the
  channels: bob's socket is joined to the channel of room \<open>r1\<close>, alice sends a message
  there, and \<^verbatim>\<open>notification:message\<close> is emitted on bob's private channel all the same.
\<close>

theorem joined_participant_is_notified:
  "in_channel bob_in_room (sock_id bob_tab) (room_channel ''r1'')
   \<and> is_member db1 ''r1'' (userId bob_tab)
   \<and> count_on_channel ''notification:message'' (user_channel (userId bob_tab))
        (fst (snd (on_message_send alice_tab1 hello 9 ''m2'' rooms_after_hello db1
                     bob_in_room))) = 1"
proof -
  have m: "is_member db1 ''r1'' (userId bob_tab)"
    by (simp add: is_member_def db1_def rooms1_def room1_def isParticipant_def bob_tab_def)
  obtain d' where hs: "handleSendMessage alice_tab1 hello 9 ''m2'' db1 = (Inr sent_hello, d')"
    using send_hello by (cases "handleSendMessage alice_tab1 hello 9 ''m2'' db1") simp
  have c: "count_on_channel ''notification:message'' (user_channel (userId bob_tab))
        (fst (snd (notifyParticipants (userSockets bob_in_room) rooms_after_hello ''r1''
                     sent_hello))) = 1"
    unfolding sent_hello_def
    by (simp add: notify_found_count [where rooms = rooms_after_hello and rid = "''r1''",
          OF rooms_after_hello_r1] room1_def bob_tab_def alice_doc_def)
  have r: "chatRoomId hello = ''r1''" by (simp add: hello_def)
  obtain res es lg where n:
    "notifyParticipants (userSockets bob_in_room) rooms_after_hello ''r1'' sent_hello =
       (res, es, lg)"
    by (cases "notifyParticipants (userSockets bob_in_room) rooms_after_hello ''r1''
                 sent_hello") auto
  from c n have "count_on_channel ''notification:message'' (user_channel (userId bob_tab)) es = 1"
    by simp
  then have "count_on_channel ''notification:message'' (user_channel (userId bob_tab))
        (fst (snd (on_message_send alice_tab1 hello 9 ''m2'' rooms_after_hello db1
                     bob_in_room))) = 1"
    by (simp add: on_message_send_def hs r n count_on_channel_def)
  with bob_joined m show ?thesis by blast
qed

text \<open>
  Claim C3, amended. The notification path of a new message targets every participant
  of the room other than the sender, whether or not that participant's connections are
  joined to the room's channel: the emissions of \<^verbatim>\<open>message:send\<close> are the same for every
  state of the registry and the channels, \<^verbatim>\<open>message:new\<close> goes to the room's channel once,
  and every participant other than the sender gets \<^verbatim>\<open>notification:message\<close> on the
  private channel.
\<close>

theorem notification_ignores_channel_membership:
  assumes "handleSendMessage sock data now nid d = (Inr (m, Some sd), d')"
    and "later (chatRoomId data) = Doc room"
    and "q \<in> set (map user (participants room))" and "q \<noteq> u_id sd"
  shows "on_message_send sock data now nid later d s =
           on_message_send sock data now nid later d s'
       \<and> count_on_channel ''message:new'' (room_channel (chatRoomId data))
           (fst (snd (on_message_send sock data now nid later d s))) = 1
       \<and> 1 \<le> count_on_channel ''notification:message'' (user_channel q)
           (fst (snd (on_message_send sock data now nid later d s)))"
proof -
  have indep: "notifyParticipants us later rid msg = notifyParticipants us' later rid msg"
    for us us' rid msg
    by (simp add: notifyParticipants_def)
  have eq: "on_message_send sock data now nid later d s =
           on_message_send sock data now nid later d s'"
    unfolding on_message_send_def
    using indep [of "userSockets s" "chatRoomId data" _ "userSockets s'"] 
    by (simp split: prod.splits sum.splits)
  obtain r es lg where n:
    "notifyParticipants (userSockets s) later (chatRoomId data) (m, Some sd) = (r, es, lg)"
    by (cases "notifyParticipants (userSockets s) later (chatRoomId data) (m, Some sd)") auto
  have cnt: "count_on_channel ''notification:message'' (user_channel q) es =
          count_list (map user (participants room)) q"
    using notify_found_count [where rooms = later and rid = "chatRoomId data", OF assms(2),
        of q "userSockets s" m sd] n assms(4)
    by simp
  from assms(3) have pos: "1 \<le> count_list (map user (participants room)) q"
    by (metis count_list_0_iff less_one not_le)
  have new: "count_on_channel ''message:new'' (room_channel (chatRoomId data)) es = 0"
    using n count_new_notify
    by (metis fst_conv snd_conv)
  have out: "fst (snd (on_message_send sock data now nid later d s)) =
      (ToChannel (room_channel (chatRoomId data)), MessageNew (m, Some sd)) # es"
    by (simp add: on_message_send_def assms(1) n)
  have c1: "count_on_channel ''message:new'' (room_channel (chatRoomId data))
           (fst (snd (on_message_send sock data now nid later d s))) = 1"
    using new unfolding out by (simp add: count_on_channel_def)
  have c2: "1 \<le> count_on_channel ''notification:message'' (user_channel q)
           (fst (snd (on_message_send sock data now nid later d s)))"
    using cnt pos unfolding out by (simp add: count_on_channel_def)
  from eq c1 c2 show ?thesis by blast
qed

theorem notification_ignores_channel_membership_witness:
  "handleSendMessage alice_tab1 hello 9 ''m2'' db1 =
     (Inr (fst sent_hello, Some alice_doc),
      snd (handleSendMessage alice_tab1 hello 9 ''m2'' db1)) \<and>
   rooms_after_hello (chatRoomId hello) = Doc (room1\<lparr>lastMessage := Some ''m2''\<rparr>) \<and>
   ''u2'' \<in> set (map user (participants (room1\<lparr>lastMessage := Some ''m2''\<rparr>))) \<and>
   ''u2'' \<noteq> u_id alice_doc \<and>
   in_channel bob_in_room ''s3'' (room_channel ''r1'') \<and>
   1 \<le> count_on_channel ''notification:message'' (user_channel ''u2'')
         (fst (snd (on_message_send alice_tab1 hello 9 ''m2'' rooms_after_hello db1
                      bob_in_room)))"
proof -
  have h1: "handleSendMessage alice_tab1 hello 9 ''m2'' db1 =
     (Inr (fst sent_hello, Some alice_doc),
      snd (handleSendMessage alice_tab1 hello 9 ''m2'' db1))"
    using send_hello
    by (cases "handleSendMessage alice_tab1 hello 9 ''m2'' db1") (simp add: sent_hello_def)
  have h2: "rooms_after_hello (chatRoomId hello) = Doc (room1\<lparr>lastMessage := Some ''m2''\<rparr>)"
    using rooms_after_hello_r1 by (simp add: hello_def)
  have h3: "''u2'' \<in> set (map user (participants (room1\<lparr>lastMessage := Some ''m2''\<rparr>)))"
    by (simp add: room1_def)
  have h4: "''u2'' \<noteq> u_id alice_doc" by (simp add: alice_doc_def)
  have j: "in_channel bob_in_room ''s3'' (room_channel ''r1'')"
    using bob_joined by (simp add: bob_tab_def)
  from notification_ignores_channel_membership
         [where later = rooms_after_hello and data = hello, OF h1 h2 h3 h4,
          of bob_in_room bob_in_room]
       h1 h2 h3 h4 j
  show ?thesis by blast
qed

section \<open>Authorization of the actor\<close>

text \<open>
  Claim C5 says that every client event is checked against the membership of the room
  before anything is emitted to the room's channel. The typing handlers check nothing:
  carol is not a participant of room \<open>r1\<close>, and her \<^verbatim>\<open>typing:start\<close> and \<^verbatim>\<open>typing:stop\<close>
  are emitted to its channel.
\<close>

theorem typing_by_non_member_reaches_room:
  "\<not> is_member db1 ''r1'' (userId carol_tab)
   \<and> count_on_channel ''typing:start'' (room_channel ''r1'')
        (on_typing_start carol_tab ''r1'') = 1
   \<and> count_on_channel ''typing:stop'' (room_channel ''r1'')
        (on_typing_stop carol_tab ''r1'') = 1"
  by (simp add: is_member_def db1_def rooms1_def room1_def isParticipant_def carol_tab_def
      on_typing_start_def on_typing_stop_def count_on_channel_def)

text \<open>
  Claim C5, amended. Sending a message and marking a room as read are checked against
  the room's membership, editing and deleting a message against the message's author:
  an actor who fails the check (or whose room or message does not resolve) gets a
  single \<^verbatim>\<open>error\<close> event on the own socket, the database is unchanged and nothing is
  emitted to any channel. \<^verbatim>\<open>typing:start\<close> and \<^verbatim>\<open>typing:stop\<close> are relayed to the room's
  channel without any check.
\<close>

theorem unauthorized_actor_gets_error_only:
  "(\<not> is_member d (chatRoomId data) (userId sock) \<longrightarrow>
      (\<exists>e. on_message_send sock data now nid later d s =
             (d, [(ToSocket (sock_id sock), ErrorEvent e)], [])))
   \<and> (\<not> is_member d rid (userId sock) \<longrightarrow>
      (\<exists>e. on_messages_read sock rid now d =
             (d, [(ToSocket (sock_id sock), ErrorEvent e)])))
   \<and> (\<not> is_author d (messageId ed) (userId sock) \<longrightarrow>
      (\<exists>e. on_message_edit sock ed now d =
             (d, [(ToSocket (sock_id sock), ErrorEvent e)])))
   \<and> (\<not> is_author d mid (userId sock) \<longrightarrow>
      (\<exists>e. on_message_delete sock mid now d =
             (d, [(ToSocket (sock_id sock), ErrorEvent e)])))
   \<and> on_typing_start sock rid =
        [(ToChannelExcept (room_channel rid) (sock_id sock),
          TypingStart (userId sock) (user_name sock) rid)]
   \<and> on_typing_stop sock rid =
        [(ToChannelExcept (room_channel rid) (sock_id sock), TypingStop (userId sock) rid)]"
proof -
  have send: "\<exists>e. on_message_send sock data now nid later d s =
             (d, [(ToSocket (sock_id sock), ErrorEvent e)], [])"
    if "\<not> is_member d (chatRoomId data) (userId sock)"
    using that
    by (cases "chatRooms d (chatRoomId data)")
       (simp_all add: is_member_def on_message_send_def handleSendMessage_def)
  have rd: "\<exists>e. on_messages_read sock rid now d =
             (d, [(ToSocket (sock_id sock), ErrorEvent e)])"
    if "\<not> is_member d rid (userId sock)"
    using that
    by (cases "chatRooms d rid")
       (simp_all add: is_member_def on_messages_read_def handleMarkAsRead_def)
  have ed: "\<exists>e. on_message_edit sock ed now d =
             (d, [(ToSocket (sock_id sock), ErrorEvent e)])"
    if "\<not> is_author d (messageId ed) (userId sock)"
    using that
    by (cases "messages d (messageId ed)")
       (simp_all add: is_author_def on_message_edit_def handleEditMessage_def)
  have del: "\<exists>e. on_message_delete sock mid now d =
             (d, [(ToSocket (sock_id sock), ErrorEvent e)])"
    if "\<not> is_author d mid (userId sock)"
    using that
    by (cases "messages d mid")
       (simp_all add: is_author_def on_message_delete_def handleDeleteMessage_def)
  from send rd ed del show ?thesis
    by (simp add: on_typing_start_def on_typing_stop_def)
qed

theorem unauthorized_actor_gets_error_only_witness:
  "\<not> is_member db1 (chatRoomId carol_hello) (userId carol_tab) \<and>
   \<not> is_member db1 ''r1'' (userId carol_tab) \<and>
   \<not> is_author db1 (messageId carol_edit) (userId carol_tab) \<and>
   \<not> is_author db1 ''m1'' (userId carol_tab) \<and>
   (\<exists>e. on_message_send carol_tab carol_hello 30 ''m3'' rooms1 db1 init_server =
          (db1, [(ToSocket (sock_id carol_tab), ErrorEvent e)], [])) \<and>
   (\<exists>e. on_messages_read carol_tab ''r1'' 30 db1 =
          (db1, [(ToSocket (sock_id carol_tab), ErrorEvent e)])) \<and>
   (\<exists>e. on_message_edit carol_tab carol_edit 30 db1 =
          (db1, [(ToSocket (sock_id carol_tab), ErrorEvent e)])) \<and>
   (\<exists>e. on_message_delete carol_tab ''m1'' 30 db1 =
          (db1, [(ToSocket (sock_id carol_tab), ErrorEvent e)]))"
proof -
  have h1: "\<not> is_member db1 (chatRoomId carol_hello) (userId carol_tab)"
    by (simp add: is_member_def db1_def rooms1_def room1_def isParticipant_def
        carol_tab_def carol_hello_def)
  have h2: "\<not> is_member db1 ''r1'' (userId carol_tab)"
    by (simp add: is_member_def db1_def rooms1_def room1_def isParticipant_def carol_tab_def)
  have h3: "\<not> is_author db1 (messageId carol_edit) (userId carol_tab)"
    by (simp add: is_author_def db1_def msg1_def carol_tab_def carol_edit_def)
  have h4: "\<not> is_author db1 ''m1'' (userId carol_tab)"
    by (simp add: is_author_def db1_def msg1_def carol_tab_def)
  from unauthorized_actor_gets_error_only
         [of db1 carol_hello carol_tab 30 "''m3''" rooms1 init_server "''r1''" carol_edit
             "''m1''"]
       h1 h2 h3 h4
  show ?thesis by blast
qed

section \<open>Editing and deleting messages\<close>

text \<open>
  Claim C7. When the acting user is not the sender of the message, \<^verbatim>\<open>message:edit\<close>
  fails with the ownership error, delivered as an \<^verbatim>\<open>error\<close> event to the acting socket;
  the database, and with it the message's content, \<^verbatim>\<open>isEdited\<close> and \<^verbatim>\<open>editedAt\<close>, is
  unchanged, and no \<^verbatim>\<open>message:edited\<close> is emitted.
\<close>

theorem edit_by_non_owner_rejected:
  assumes "messages d (messageId ed) = Doc m" and "sender m \<noteq> userId sock"
  shows "on_message_edit sock ed now d =
           (d, [(ToSocket (sock_id sock), ErrorEvent ''You can only edit your own messages'')])
       \<and> messages (fst (on_message_edit sock ed now d)) (messageId ed) = Doc m
       \<and> count_event ''message:edited'' (snd (on_message_edit sock ed now d)) = 0"
  using assms
  by (simp add: on_message_edit_def handleEditMessage_def count_event_def)

theorem edit_by_non_owner_rejected_witness:
  "messages db1 (messageId bob_edit) = Doc msg1 \<and> sender msg1 \<noteq> userId bob_tab \<and>
   on_message_edit bob_tab bob_edit 20 db1 =
     (db1, [(ToSocket ''s3'', ErrorEvent ''You can only edit your own messages'')])"
proof -
  have h1: "messages db1 (messageId bob_edit) = Doc msg1"
    by (simp add: db1_def bob_edit_def)
  have h2: "sender msg1 \<noteq> userId bob_tab" by (simp add: msg1_def bob_tab_def)
  have h3: "sock_id bob_tab = ''s3''" by (simp add: bob_tab_def)
  from edit_by_non_owner_rejected [where d = db1 and ed = bob_edit, OF h1 h2, of 20] h1 h2 h3
  show ?thesis by simp
qed

text \<open>
  Claim C6 says that deleting an already deleted message fails and leaves the record
  unchanged. \<^verbatim>\<open>handleDeleteMessage\<close> does not look at \<^verbatim>\<open>isDeleted\<close>: alice deletes her
  deleted message again, \<^verbatim>\<open>message:deleted\<close> is emitted to the room again, and the
  stored \<^verbatim>\<open>deletedAt\<close> moves from 7 to 50.
\<close>

theorem delete_of_deleted_message_repeats:
  "messages db1_deleted ''m1'' = Doc (softDelete msg1 7)
   \<and> isDeleted (softDelete msg1 7)
   \<and> snd (on_message_delete alice_tab1 ''m1'' 50 db1_deleted) =
       [(ToChannel (room_channel ''r1''), MessageDeleted ''m1'' ''r1'')]
   \<and> messages (fst (on_message_delete alice_tab1 ''m1'' 50 db1_deleted)) ''m1'' =
       Doc (softDelete msg1 50)
   \<and> deletedAt (softDelete msg1 50) \<noteq> deletedAt (softDelete msg1 7)"
  by (simp add: db1_deleted_def db1_def on_message_delete_def handleDeleteMessage_def
      softDelete_def msg1_def alice_tab1_def Let_def)

text \<open>
  Claim C6, amended. Editing an already deleted message fails with an \<^verbatim>\<open>error\<close> event
  to the acting socket (for the author, the message is \<^verbatim>\<open>Cannot edit deleted message\<close>),
  the database is unchanged and no \<^verbatim>\<open>message:edited\<close> is emitted. Deleting an already
  deleted message is not rejected for its author: the soft delete is applied again and
  \<^verbatim>\<open>message:deleted\<close> is emitted to the room's channel again.
\<close>

theorem deleted_message_edit_rejected_delete_repeated:
  assumes "messages d mid = Doc m" and "isDeleted m"
  shows "(\<exists>e. on_message_edit sock \<lparr>messageId = mid, edit_content = c\<rparr> now d =
               (d, [(ToSocket (sock_id sock), ErrorEvent e)])
            \<and> (sender m = userId sock \<longrightarrow> e = ''Cannot edit deleted message''))
       \<and> (sender m = userId sock \<longrightarrow>
            on_message_delete sock mid now d =
              (d\<lparr>messages := (messages d)(msg_id m := Doc (softDelete m now))\<rparr>,
               [(ToChannel (room_channel (chatRoom m)), MessageDeleted mid (chatRoom m))]))"
  using assms
  by (simp add: on_message_edit_def handleEditMessage_def on_message_delete_def
      handleDeleteMessage_def Let_def softDelete_def)

theorem deleted_message_edit_rejected_delete_repeated_witness:
  "messages db1_deleted ''m1'' = Doc (softDelete msg1 7) \<and> isDeleted (softDelete msg1 7) \<and>
   sender (softDelete msg1 7) = userId alice_tab1 \<and>
   on_message_edit alice_tab1 \<lparr>messageId = ''m1'', edit_content = ''again''\<rparr> 50 db1_deleted =
     (db1_deleted, [(ToSocket ''s1'', ErrorEvent ''Cannot edit deleted message'')]) \<and>
   snd (on_message_delete alice_tab1 ''m1'' 50 db1_deleted) =
     [(ToChannel (room_channel ''r1''), MessageDeleted ''m1'' ''r1'')]"
proof -
  have h1: "messages db1_deleted ''m1'' = Doc (softDelete msg1 7)"
    by (simp add: db1_deleted_def)
  have h2: "isDeleted (softDelete msg1 7)" by (simp add: softDelete_def)
  have h3: "sender (softDelete msg1 7) = userId alice_tab1"
    by (simp add: softDelete_def msg1_def alice_tab1_def)
  have h4: "sock_id alice_tab1 = ''s1''" "chatRoom (softDelete msg1 7) = ''r1''"
    by (simp_all add: alice_tab1_def softDelete_def msg1_def)
  from deleted_message_edit_rejected_delete_repeated
         [where d = db1_deleted and mid = "''m1''", OF h1 h2, of alice_tab1 "''again''" 50]
       h1 h2 h3 h4
  show ?thesis by auto
qed

section \<open>What clients see of a deleted message\<close>

text \<open>
  Claim C10. For a message flagged as deleted, \<^verbatim>\<open>toJSON\<close> gives the placeholder as
  content and no media; \<^verbatim>\<open>softDelete\<close> sets the flag, stores the placeholder as content
  and clears the media, so that the serialization of a soft-deleted message has neither
  the original content nor the attachment.
\<close>

theorem deleted_message_hides_content:
  "(isDeleted m \<longrightarrow>
      content (toJSON m) = ''This message has been deleted'' \<and> media (toJSON m) = None)
   \<and> isDeleted (softDelete m now)
   \<and> content (softDelete m now) = ''This message has been deleted''
   \<and> media (softDelete m now) = None
   \<and> content (toJSON (softDelete m now)) = ''This message has been deleted''
   \<and> media (toJSON (softDelete m now)) = None"
  by (simp add: toJSON_def softDelete_def deleted_placeholder_def)

theorem deleted_message_hides_content_witness:
  "isDeleted photo_flagged \<and> content photo_flagged = ''hello'' \<and>
   media photo_flagged \<noteq> None \<and>
   content (toJSON photo_flagged) = ''This message has been deleted'' \<and>
   media (toJSON photo_flagged) = None"
proof -
  have h: "isDeleted photo_flagged" by (simp add: photo_flagged_def)
  have o: "content photo_flagged = ''hello'' \<and> media photo_flagged \<noteq> None"
    by (simp add: photo_flagged_def msg1_def)
  from deleted_message_hides_content [of photo_flagged 0] h o show ?thesis by simp
qed

end
